theory Spec2Isabelle
  imports Complex_Main "HOL-Library.AList" "HOL-Library.Product_Lexorder" "HOL-Library.Multiset"
begin

section \<open>The microkernel core: processes, memory pool, kernel messages\<close>

text \<open>
  The model follows \<^verbatim>\<open>kernel/microkernel.py\<close>. Python objects are references, and
  \<^verbatim>\<open>allocate_memory\<close> / \<^verbatim>\<open>deallocate_memory\<close> mutate the \<^verbatim>\<open>Process\<close> object they are
  handed, so the \<^verbatim>\<open>Process\<close> objects live in an explicit store: the list \<open>objects\<close>,
  addressed by position. Constructing an object appends it to the store; a reference is
  well-formed when it points into the store. Time stamps (\<^verbatim>\<open>time.time()\<close>) and the
  generated process id (\<^verbatim>\<open>str(uuid.uuid4())[:8]\<close>) are read from the environment, so
  the operations take them as arguments. Printing is not modelled. The service registry,
  the \<^verbatim>\<open>context\<close> dictionary of a process and the locks are left out: no operation
  below reads them.
\<close>

datatype ProcessState = READY | RUNNING | BLOCKED | TERMINATED

type_synonym addr = nat

record Process =
  pid :: string
  name :: string
  priority :: int
  state :: ProcessState
  memory_allocated :: int
  created_at :: real
  thread :: bool

text \<open>\<^verbatim>\<open>Process.__init__\<close>; \<open>thread\<close> records whether a thread object is attached.\<close>

definition Process_init :: "string \<Rightarrow> string \<Rightarrow> int \<Rightarrow> real \<Rightarrow> Process" where
  "Process_init p n prio now =
     \<lparr>pid = p, name = n, priority = prio, state = READY,
      memory_allocated = 0, created_at = now, thread = False\<rparr>"

text \<open>The dictionary a kernel message is (\<^verbatim>\<open>from\<close>, \<^verbatim>\<open>to\<close>, \<^verbatim>\<open>message\<close>, \<^verbatim>\<open>timestamp\<close>).\<close>

record 'm kmessage =
  msg_from :: string
  msg_to :: string
  msg_message :: 'm
  msg_timestamp :: real

record kstats =
  processes_created :: int
  processes_terminated :: int
  services_registered :: int
  messages_sent :: int

text \<open>
  \<open>processes\<close> is the dictionary from pid to \<^verbatim>\<open>Process\<close> object, kept as an association
  list in insertion order because \<^verbatim>\<open>list_processes\<close> returns its values in that order.
\<close>

record 'm Microkernel =
  objects :: "Process list"
  processes :: "(string \<times> addr) list"
  memory_pool :: int
  memory_used :: int
  message_queue :: "string \<rightharpoonup> 'm kmessage list"
  running :: bool
  stats :: kstats

definition Microkernel_init :: "'m Microkernel" where
  "Microkernel_init =
     \<lparr>objects = [], processes = [], memory_pool = 1024 * 1024, memory_used = 0,
      message_queue = Map.empty, running = False,
      stats = \<lparr>processes_created = 0, processes_terminated = 0,
               services_registered = 0, messages_sent = 0\<rparr>\<rparr>"

text \<open>Construction of a \<^verbatim>\<open>Process\<close> object: the new reference and the extended store.\<close>

definition new_process :: "'m Microkernel \<Rightarrow> Process \<Rightarrow> addr \<times> 'm Microkernel" where
  "new_process s p = (length (objects s), s\<lparr>objects := objects s @ [p]\<rparr>)"

subsection \<open>Memory pool\<close>

definition allocate_memory :: "'m Microkernel \<Rightarrow> addr \<Rightarrow> int \<Rightarrow> 'm Microkernel \<times> bool" where
  "allocate_memory s a sz =
     (if memory_used s + sz > memory_pool s then (s, False)
      else (s\<lparr>memory_used := memory_used s + sz,
              objects := (objects s)[a := (objects s ! a)\<lparr>memory_allocated := sz\<rparr>]\<rparr>, True))"

definition deallocate_memory :: "'m Microkernel \<Rightarrow> addr \<Rightarrow> 'm Microkernel \<times> bool" where
  "deallocate_memory s a =
     (if memory_allocated (objects s ! a) > 0
      then (s\<lparr>memory_used := memory_used s - memory_allocated (objects s ! a),
              objects := (objects s)[a := (objects s ! a)\<lparr>memory_allocated := 0\<rparr>]\<rparr>, True)
      else (s, False))"

text \<open>A sequence of calls on the pool, each on a \<^verbatim>\<open>Process\<close> object of the store.\<close>

datatype mem_op = Allocate addr int | Deallocate addr

fun mem_step :: "'m Microkernel \<Rightarrow> mem_op \<Rightarrow> 'm Microkernel" where
  "mem_step s (Allocate a n) = fst (allocate_memory s a n)"
| "mem_step s (Deallocate a) = fst (deallocate_memory s a)"

fun mem_run :: "'m Microkernel \<Rightarrow> mem_op list \<Rightarrow> 'm Microkernel" where
  "mem_run s [] = s"
| "mem_run s (x # xs) = mem_run (mem_step s x) xs"

text \<open>An operation is well-formed on a store of \<open>n\<close> objects: valid reference, size not negative.\<close>

fun mem_op_ok :: "nat \<Rightarrow> mem_op \<Rightarrow> bool" where
  "mem_op_ok n (Allocate a k) = (a < n \<and> 0 \<le> k)"
| "mem_op_ok n (Deallocate a) = (a < n)"

text \<open>The sum of what the processes of the store have recorded.\<close>

definition ledger :: "'m Microkernel \<Rightarrow> int" where
  "ledger s = sum_list (map memory_allocated (objects s))"

definition pool_inv :: "'m Microkernel \<Rightarrow> bool" where
  "pool_inv s \<longleftrightarrow>
     list_all (\<lambda>p. 0 \<le> memory_allocated p) (objects s) \<and>
     ledger s \<le> memory_used s \<and> memory_used s \<le> memory_pool s"

text \<open>The pool as \<^verbatim>\<open>Microkernel.__init__\<close> leaves it, with \<open>ps\<close> the \<^verbatim>\<open>Process\<close> objects in the store.\<close>

definition pool_start :: "Process list \<Rightarrow> 'm Microkernel" where
  "pool_start ps = Microkernel_init\<lparr>objects := ps\<rparr>"

subsection \<open>Process table\<close>

text \<open>
  \<^verbatim>\<open>create_process\<close> raises a plain \<^verbatim>\<open>Exception\<close> whose message says that there is not
  enough memory for the process of that name; \<open>OutOfMemory\<close> is that exception, carrying
  the name. The state is returned in both cases: an exception leaves the kernel as the
  statements before it made it. \<open>target_func\<close> says whether a function was passed.
\<close>

datatype kernel_error = OutOfMemory string

definition create_process ::
  "'m Microkernel \<Rightarrow> string \<Rightarrow> real \<Rightarrow> string \<Rightarrow> bool \<Rightarrow> int
     \<Rightarrow> 'm Microkernel \<times> (kernel_error + string)" where
  "create_process s new_pid now nm target_func prio =
     (let (a, s1) = new_process s (Process_init new_pid nm prio now);
          memory_needed = 1024;
          (s2, ok) = allocate_memory s1 a memory_needed
      in if \<not> ok then (s2, Inl (OutOfMemory nm))
         else
           let s3 = s2\<lparr>processes := AList.update new_pid a (processes s2),
                       message_queue := (message_queue s2)(new_pid \<mapsto> []),
                       stats := (stats s2)\<lparr>processes_created :=
                                  processes_created (stats s2) + 1\<rparr>\<rparr>;
               s4 = (if target_func
                     then s3\<lparr>objects := (objects s3)
                              [a := (objects s3 ! a)\<lparr>thread := True, state := READY\<rparr>]\<rparr>
                     else s3)
           in (s4, Inr new_pid))"

definition terminate_process :: "'m Microkernel \<Rightarrow> string \<Rightarrow> 'm Microkernel \<times> bool" where
  "terminate_process s p =
     (case map_of (processes s) p of
        None \<Rightarrow> (s, False)
      | Some a \<Rightarrow>
          let s1 = s\<lparr>objects := (objects s)[a := (objects s ! a)\<lparr>state := TERMINATED\<rparr>]\<rparr>;
              s2 = fst (deallocate_memory s1 a);
              s3 = (if p \<in> dom (message_queue s2)
                    then s2\<lparr>message_queue := (message_queue s2)(p := None)\<rparr> else s2);
              s4 = s3\<lparr>processes := AList.delete p (processes s3),
                       stats := (stats s3)\<lparr>processes_terminated :=
                                  processes_terminated (stats s3) + 1\<rparr>\<rparr>
          in (s4, True))"

definition list_processes :: "'m Microkernel \<Rightarrow> addr list" where
  "list_processes s = map snd (processes s)"

definition get_process :: "'m Microkernel \<Rightarrow> string \<Rightarrow> addr option" where
  "get_process s p = map_of (processes s) p"

text \<open>
  What every state built by the operations satisfies: the table is a dictionary (one entry
  per pid), no object is entered twice, every entry points into the store, and no object
  records a negative allocation.
\<close>

definition kernel_wf :: "'m Microkernel \<Rightarrow> bool" where
  "kernel_wf s \<longleftrightarrow>
     distinct (map fst (processes s)) \<and> distinct (map snd (processes s)) \<and>
     list_all (\<lambda>a. a < length (objects s)) (map snd (processes s)) \<and>
     list_all (\<lambda>p. 0 \<le> memory_allocated p) (objects s)"

subsection \<open>Kernel messages\<close>

definition send_message ::
  "'m Microkernel \<Rightarrow> string \<Rightarrow> string \<Rightarrow> 'm \<Rightarrow> real \<Rightarrow> 'm Microkernel \<times> bool" where
  "send_message s from_pid to_pid message now =
     (case message_queue s to_pid of
        None \<Rightarrow> (s, False)
      | Some q \<Rightarrow>
          let msg = \<lparr>msg_from = from_pid, msg_to = to_pid, msg_message = message,
                     msg_timestamp = now\<rparr>
          in (s\<lparr>message_queue := (message_queue s)(to_pid \<mapsto> q @ [msg]),
                stats := (stats s)\<lparr>messages_sent := messages_sent (stats s) + 1\<rparr>\<rparr>, True))"

definition receive_message :: "'m Microkernel \<Rightarrow> string \<Rightarrow> 'm Microkernel \<times> 'm kmessage option" where
  "receive_message s p =
     (case message_queue s p of
        None \<Rightarrow> (s, None)
      | Some [] \<Rightarrow> (s, None)
      | Some (m # q) \<Rightarrow> (s\<lparr>message_queue := (message_queue s)(p \<mapsto> q)\<rparr>, Some m))"

definition has_messages :: "'m Microkernel \<Rightarrow> string \<Rightarrow> bool" where
  "has_messages s p = (case message_queue s p of None \<Rightarrow> False | Some q \<Rightarrow> length q > 0)"

text \<open>The message a send builds from the sender, the payload and the clock reading.\<close>

definition mk_msg :: "string \<Rightarrow> string \<times> 'm \<times> real \<Rightarrow> 'm kmessage" where
  "mk_msg to_pid x = (case x of (from_pid, m, now) \<Rightarrow>
     \<lparr>msg_from = from_pid, msg_to = to_pid, msg_message = m, msg_timestamp = now\<rparr>)"

text \<open>
  Sending a list of payloads (each with its sender and the clock reading of the call) to
  one receiver, and receiving \<open>n\<close> times in a row.
\<close>

fun send_all ::
  "'m Microkernel \<Rightarrow> string \<Rightarrow> (string \<times> 'm \<times> real) list \<Rightarrow> 'm Microkernel \<times> bool list" where
  "send_all s to_pid [] = (s, [])"
| "send_all s to_pid ((from_pid, m, now) # ms) =
     (let (s1, ok) = send_message s from_pid to_pid m now;
          (s2, oks) = send_all s1 to_pid ms
      in (s2, ok # oks))"

fun receive_n :: "'m Microkernel \<Rightarrow> string \<Rightarrow> nat \<Rightarrow> 'm Microkernel \<times> 'm kmessage option list" where
  "receive_n s p 0 = (s, [])"
| "receive_n s p (Suc n) =
     (let (s1, r) = receive_message s p;
          (s2, rs) = receive_n s1 p n
      in (s2, r # rs))"

section \<open>The IPC primitives\<close>

text \<open>
  The model follows \<^verbatim>\<open>kernel/ipc.py\<close>. The primitives are used from several threads;
  the model is of the code that runs while a primitive's lock is held, one call at a time.
  A call that parks its thread (\<^verbatim>\<open>condition.wait\<close>, a blocking \<^verbatim>\<open>queue.get\<close> or
  \<^verbatim>\<open>queue.put\<close>) is a result of its own, so that not returning is visible.
\<close>

datatype 'r outcome = Return 'r | Block | ValueError

subsection \<open>Messages of the IPC manager\<close>

text \<open>The derived \<^verbatim>\<open>id\<close> string of a message is left out: nothing reads it.\<close>

record 'd Message =
  sender :: string
  receiver :: string
  data :: 'd
  msg_type :: string
  timestamp :: real

subsection \<open>Semaphore\<close>

record Semaphore =
  sem_name :: string
  sem_value :: int
  initial_value :: int
  waiting_processes :: "string list"

definition Semaphore_init :: "string \<Rightarrow> int \<Rightarrow> Semaphore" where
  "Semaphore_init n v =
     \<lparr>sem_name = n, sem_value = v, initial_value = v, waiting_processes = []\<rparr>"

text \<open>
  \<^verbatim>\<open>acquire\<close> holds the semaphore's lock except while it waits on the condition, so one
  pass through its \<^verbatim>\<open>while\<close> loop (the test, and either the body up to the wait or the
  code after the loop) is atomic. \<open>acquire_pass\<close> is one such pass of the thread of
  \<open>process_id\<close>; \<open>elapsed\<close> is \<^verbatim>\<open>time.time() - start_time\<close> as the pass reads it. A
  pass ends with the semaphore acquired, with the call timed out, or with the thread
  parked; a parked thread makes another pass when it is woken. \<^verbatim>\<open>if timeout:\<close> is
  Python's truth test: \<^verbatim>\<open>None\<close> and \<^verbatim>\<open>0\<close> both mean no timeout.
\<close>

datatype acquire_status = Acquired | TimedOut | Parked

definition acquire_pass ::
  "Semaphore \<Rightarrow> string \<Rightarrow> real option \<Rightarrow> real \<Rightarrow> Semaphore \<times> acquire_status" where
  "acquire_pass s process_id timeout elapsed =
     (if sem_value s \<le> 0 then
        let s1 = (if process_id \<notin> set (waiting_processes s)
                  then s\<lparr>waiting_processes := waiting_processes s @ [process_id]\<rparr> else s)
        in (case timeout of
              None \<Rightarrow> (s1, Parked)
            | Some t \<Rightarrow>
                if t = 0 then (s1, Parked)
                else if t - elapsed \<le> 0
                then ((if process_id \<in> set (waiting_processes s1)
                       then s1\<lparr>waiting_processes := remove1 process_id (waiting_processes s1)\<rparr>
                       else s1), TimedOut)
                else (s1, Parked))
      else
        let s1 = s\<lparr>sem_value := sem_value s - 1\<rparr>
        in ((if process_id \<in> set (waiting_processes s1)
             then s1\<lparr>waiting_processes := remove1 process_id (waiting_processes s1)\<rparr>
             else s1), Acquired))"

definition release :: "Semaphore \<Rightarrow> string \<Rightarrow> Semaphore" where
  "release s process_id = s\<lparr>sem_value := sem_value s + 1\<rparr>"

text \<open>
  What happens to a semaphore, in the order the lock is taken: passes of \<^verbatim>\<open>acquire\<close>
  calls and \<^verbatim>\<open>release\<close> calls of any threads, interleaved in any way.
\<close>

datatype sem_event = AcquirePass string "real option" real | Release string

fun sem_step :: "Semaphore \<Rightarrow> sem_event \<Rightarrow> Semaphore" where
  "sem_step s (AcquirePass p timeout elapsed) = fst (acquire_pass s p timeout elapsed)"
| "sem_step s (Release p) = release s p"

fun sem_run :: "Semaphore \<Rightarrow> sem_event list \<Rightarrow> Semaphore" where
  "sem_run s [] = s"
| "sem_run s (e # es) = sem_run (sem_step s e) es"

subsection \<open>Shared memory\<close>

record 'v SharedMemory =
  shm_name :: string
  shm_size :: int
  shm_data :: "string \<rightharpoonup> 'v"
  access_count :: int
  authorized_processes :: "string list"

definition SharedMemory_init :: "string \<Rightarrow> int \<Rightarrow> 'v SharedMemory" where
  "SharedMemory_init n sz =
     \<lparr>shm_name = n, shm_size = sz, shm_data = Map.empty, access_count = 0,
      authorized_processes = []\<rparr>"

definition authorize_process :: "'v SharedMemory \<Rightarrow> string \<Rightarrow> 'v SharedMemory" where
  "authorize_process m process_id =
     (if process_id \<notin> set (authorized_processes m)
      then m\<lparr>authorized_processes := authorized_processes m @ [process_id]\<rparr> else m)"

text \<open>\<^verbatim>\<open>read\<close> returns \<^verbatim>\<open>self.data.get(key)\<close>: \<open>None\<close> is Python's \<^verbatim>\<open>None\<close>.\<close>

definition shm_read :: "'v SharedMemory \<Rightarrow> string \<Rightarrow> string \<Rightarrow> 'v SharedMemory \<times> 'v option" where
  "shm_read m process_id key =
     (if process_id \<notin> set (authorized_processes m) then (m, None)
      else (m\<lparr>access_count := access_count m + 1\<rparr>, shm_data m key))"

definition shm_write :: "'v SharedMemory \<Rightarrow> string \<Rightarrow> string \<Rightarrow> 'v \<Rightarrow> 'v SharedMemory \<times> bool" where
  "shm_write m process_id key v =
     (if process_id \<notin> set (authorized_processes m) then (m, False)
      else (m\<lparr>shm_data := (shm_data m)(key \<mapsto> v), access_count := access_count m + 1\<rparr>, True))"

subsection \<open>Pipe\<close>

text \<open>
  A pipe holds a \<^verbatim>\<open>queue.Queue(maxsize)\<close> of Python's standard library: \<open>pipe_queue\<close> is
  its content, oldest first, and a \<open>maxsize\<close> of zero or less means no bound.
  \<^verbatim>\<open>put\<close> and \<^verbatim>\<open>get\<close> are called blocking, with the caller's timeout: with no timeout
  they wait for room (for an item), with a negative one they raise \<^verbatim>\<open>ValueError\<close>, and
  otherwise they wait at most that long and raise \<^verbatim>\<open>Full\<close> (\<^verbatim>\<open>Empty\<close>), which the pipe
  turns into its failure value. The model is of a call during which no other thread
  touches the queue, so a wait ends only by its timeout.
\<close>

record 'd Pipe =
  pipe_name :: string
  pipe_queue :: "'d list"
  maxsize :: int
  readers :: "string list"
  writers :: "string list"
  pipe_created_at :: real

definition Pipe_init :: "string \<Rightarrow> int \<Rightarrow> real \<Rightarrow> 'd Pipe" where
  "Pipe_init n max_size now =
     \<lparr>pipe_name = n, pipe_queue = [], maxsize = max_size, readers = [], writers = [],
      pipe_created_at = now\<rparr>"

definition add_reader :: "'d Pipe \<Rightarrow> string \<Rightarrow> 'd Pipe" where
  "add_reader p process_id =
     (if process_id \<notin> set (readers p) then p\<lparr>readers := readers p @ [process_id]\<rparr> else p)"

definition add_writer :: "'d Pipe \<Rightarrow> string \<Rightarrow> 'd Pipe" where
  "add_writer p process_id =
     (if process_id \<notin> set (writers p) then p\<lparr>writers := writers p @ [process_id]\<rparr> else p)"

definition queue_full :: "'d Pipe \<Rightarrow> bool" where
  "queue_full p \<longleftrightarrow> maxsize p > 0 \<and> int (length (pipe_queue p)) \<ge> maxsize p"

definition pipe_write ::
  "'d Pipe \<Rightarrow> string \<Rightarrow> 'd \<Rightarrow> real option \<Rightarrow> 'd Pipe \<times> bool outcome" where
  "pipe_write p process_id d timeout =
     (if process_id \<notin> set (writers p) then (p, Return False)
      else if maxsize p > 0 \<and> timeout = None \<and> queue_full p then (p, Block)
      else if maxsize p > 0 \<and> (case timeout of None \<Rightarrow> False | Some t \<Rightarrow> t < 0)
      then (p, ValueError)
      else if queue_full p then (p, Return False)
      else (p\<lparr>pipe_queue := pipe_queue p @ [d]\<rparr>, Return True))"

definition pipe_read ::
  "'d Pipe \<Rightarrow> string \<Rightarrow> real option \<Rightarrow> 'd Pipe \<times> 'd option outcome" where
  "pipe_read p process_id timeout =
     (if process_id \<notin> set (readers p) then (p, Return None)
      else
        (case timeout of
           None \<Rightarrow>
             (case pipe_queue p of
                [] \<Rightarrow> (p, Block)
              | d # q \<Rightarrow> (p\<lparr>pipe_queue := q\<rparr>, Return (Some d)))
         | Some t \<Rightarrow>
             if t < 0 then (p, ValueError)
             else
               (case pipe_queue p of
                  [] \<Rightarrow> (p, Return None)
                | d # q \<Rightarrow> (p\<lparr>pipe_queue := q\<rparr>, Return (Some d)))))"

subsection \<open>The IPC manager\<close>

record 'd IPCManager =
  messages :: "string \<rightharpoonup> 'd Message list"
  semaphores :: "string \<rightharpoonup> Semaphore"
  shared_memories :: "string \<rightharpoonup> 'd SharedMemory"
  pipes :: "string \<rightharpoonup> 'd Pipe"

definition IPCManager_init :: "'d IPCManager" where
  "IPCManager_init =
     \<lparr>messages = Map.empty, semaphores = Map.empty, shared_memories = Map.empty,
      pipes = Map.empty\<rparr>"

text \<open>
  \<^verbatim>\<open>IPCManager.send_message\<close> asks the global kernel for both processes;
  \<^verbatim>\<open>get_process\<close> returns the object or \<^verbatim>\<open>None\<close>, and a \<^verbatim>\<open>Process\<close> object is true.
\<close>

definition ipc_send_message ::
  "'d IPCManager \<Rightarrow> 'm Microkernel \<Rightarrow> string \<Rightarrow> string \<Rightarrow> 'd \<Rightarrow> string \<Rightarrow> real
     \<Rightarrow> 'd IPCManager \<times> bool" where
  "ipc_send_message ipc k snd_id rcv_id d mtype now =
     (if get_process k snd_id = None \<or> get_process k rcv_id = None
      then (ipc, False)
      else
        let message = \<lparr>sender = snd_id, receiver = rcv_id, data = d, msg_type = mtype,
                        timestamp = now\<rparr>;
            q = (case messages ipc rcv_id of None \<Rightarrow> [] | Some q \<Rightarrow> q)
        in (ipc\<lparr>messages := (messages ipc)(rcv_id \<mapsto> q @ [message])\<rparr>, True))"

definition create_pipe :: "'d IPCManager \<Rightarrow> string \<Rightarrow> int \<Rightarrow> real \<Rightarrow> 'd IPCManager \<times> bool" where
  "create_pipe ipc n max_size now =
     (if n \<in> dom (pipes ipc) then (ipc, False)
      else (ipc\<lparr>pipes := (pipes ipc)(n \<mapsto> Pipe_init n max_size now)\<rparr>, True))"

definition add_pipe_reader :: "'d IPCManager \<Rightarrow> string \<Rightarrow> string \<Rightarrow> 'd IPCManager \<times> bool" where
  "add_pipe_reader ipc pname process_id =
     (case pipes ipc pname of
        None \<Rightarrow> (ipc, False)
      | Some p \<Rightarrow> (ipc\<lparr>pipes := (pipes ipc)(pname \<mapsto> add_reader p process_id)\<rparr>, True))"

definition add_pipe_writer :: "'d IPCManager \<Rightarrow> string \<Rightarrow> string \<Rightarrow> 'd IPCManager \<times> bool" where
  "add_pipe_writer ipc pname process_id =
     (case pipes ipc pname of
        None \<Rightarrow> (ipc, False)
      | Some p \<Rightarrow> (ipc\<lparr>pipes := (pipes ipc)(pname \<mapsto> add_writer p process_id)\<rparr>, True))"

definition write_pipe ::
  "'d IPCManager \<Rightarrow> string \<Rightarrow> string \<Rightarrow> 'd \<Rightarrow> real option \<Rightarrow> 'd IPCManager \<times> bool outcome" where
  "write_pipe ipc pname process_id d timeout =
     (case pipes ipc pname of
        None \<Rightarrow> (ipc, Return False)
      | Some p \<Rightarrow>
          let (p', r) = pipe_write p process_id d timeout
          in (ipc\<lparr>pipes := (pipes ipc)(pname \<mapsto> p')\<rparr>, r))"

definition read_pipe ::
  "'d IPCManager \<Rightarrow> string \<Rightarrow> string \<Rightarrow> real option \<Rightarrow> 'd IPCManager \<times> 'd option outcome" where
  "read_pipe ipc pname process_id timeout =
     (case pipes ipc pname of
        None \<Rightarrow> (ipc, Return None)
      | Some p \<Rightarrow>
          let (p', r) = pipe_read p process_id timeout
          in (ipc\<lparr>pipes := (pipes ipc)(pname \<mapsto> p')\<rparr>, r))"

section \<open>The scheduler\<close>

text \<open>
  The model follows \<^verbatim>\<open>Scheduler._select_next_process\<close> of \<^verbatim>\<open>kernel/scheduler.py\<close>. The
  ready list holds references to \<^verbatim>\<open>Process\<close> objects of the store \<open>objs\<close>; membership
  and \<^verbatim>\<open>index\<close> compare objects by identity, that is, references. \<^verbatim>\<open>list.sort\<close> is
  stable and compares the keys \<^verbatim>\<open>(-priority, created_at)\<close> lexicographically, as
  \<open>sort_key\<close> does on pairs.
\<close>

record Scheduler =
  time_slice :: real
  sched_running :: bool
  current_process :: "addr option"

datatype sched_error = IndexValueError

text \<open>\<^verbatim>\<open>list.index\<close>: the first position of \<open>x\<close>; \<open>None\<close> is its \<^verbatim>\<open>ValueError\<close>.\<close>

fun list_index :: "'a list \<Rightarrow> 'a \<Rightarrow> nat option" where
  "list_index [] x = None"
| "list_index (y # ys) x = (if y = x then Some 0 else map_option Suc (list_index ys x))"

definition sort_ready :: "Process list \<Rightarrow> addr list \<Rightarrow> addr list" where
  "sort_ready objs ready_processes =
     sort_key (\<lambda>a. (- priority (objs ! a), created_at (objs ! a))) ready_processes"

definition select_next_process ::
  "Process list \<Rightarrow> Scheduler \<Rightarrow> addr list \<Rightarrow> sched_error + addr option" where
  "select_next_process objs sch ready_processes =
     (if ready_processes = [] then Inr None
      else
        let rs = sort_ready objs ready_processes in
        (case current_process sch of
           None \<Rightarrow> Inr (Some (rs ! 0))
         | Some c \<Rightarrow>
             if c \<in> set rs then
               let same_priority = filter (\<lambda>a. priority (objs ! a) = priority (objs ! c)) rs
               in if length same_priority > 1
                  then (case list_index same_priority c of
                          None \<Rightarrow> Inl IndexValueError
                        | Some i \<Rightarrow>
                            Inr (Some (same_priority ! ((i + 1) mod length same_priority))))
                  else Inr (Some (rs ! 0))
             else Inr (Some (rs ! 0))))"

text \<open>
  The selection in the words of the specification. The band of a process is the part of
  the ordered ready list with its priority; the cyclically next entry after \<open>c\<close> is the
  one that follows \<open>c\<close> in the band, and the band's first when \<open>c\<close> is its last.
\<close>

definition band :: "Process list \<Rightarrow> addr \<Rightarrow> addr list \<Rightarrow> addr list" where
  "band objs c rs = filter (\<lambda>a. priority (objs ! a) = priority (objs ! c)) rs"

definition cyclic_next :: "'a list \<Rightarrow> 'a \<Rightarrow> 'a" where
  "cyclic_next xs c =
     (case dropWhile (\<lambda>x. x \<noteq> c) xs of
        _ # y # _ \<Rightarrow> y
      | _ \<Rightarrow> hd xs)"

text \<open>Descending priority, then ascending creation time.\<close>

definition before :: "Process list \<Rightarrow> addr \<Rightarrow> addr \<Rightarrow> bool" where
  "before objs a b \<longleftrightarrow>
     priority (objs ! a) > priority (objs ! b) \<or>
     (priority (objs ! a) = priority (objs ! b) \<and> created_at (objs ! a) \<le> created_at (objs ! b))"

section \<open>Example states\<close>

text \<open>A kernel with one process, and the same kernel with less than 1 KiB left.\<close>

definition example_kernel :: "string Microkernel" where
  "example_kernel = fst (create_process Microkernel_init ''a1b2c3d4'' 0 ''app'' False 1)"

definition full_kernel :: "string Microkernel" where
  "full_kernel = fst (allocate_memory example_kernel 0 (1024 * 1024 - 1500))"

text \<open>The kernel with one process, after one message was sent to that process.\<close>

definition busy_kernel :: "string Microkernel" where
  "busy_kernel = fst (send_message example_kernel ''5e5e5e5e'' ''a1b2c3d4'' ''X'' 1)"

text \<open>An IPC manager with one empty pipe of capacity 2 and one authorised reader.\<close>

definition example_ipc :: "string IPCManager" where
  "example_ipc =
     fst (add_pipe_reader (fst (create_pipe IPCManager_init ''log'' 2 0)) ''log'' ''reader01'')"

text \<open>
  Four \<^verbatim>\<open>Process\<close> objects for the scheduler: a terminated one of priority 1, and three
  ready ones of priorities 2, 1 and 1, created in that order.
\<close>

definition sched_objs :: "Process list" where
  "sched_objs =
     [(Process_init ''00000000'' ''old'' 1 5)\<lparr>state := TERMINATED\<rparr>,
      Process_init ''aaaaaaaa'' ''A'' 2 10,
      Process_init ''bbbbbbbb'' ''B'' 1 11,
      Process_init ''cccccccc'' ''C'' 1 12]"

definition sched_with :: "addr option \<Rightarrow> Scheduler" where
  "sched_with c = \<lparr>time_slice = 1 / 10, sched_running = True, current_process = c\<rparr>"

section \<open>Memory pool: bounds of the used counter\<close>

lemma sum_list_map_update:
  fixes f :: "'a \<Rightarrow> int"
  shows "a < length xs \<Longrightarrow>
    sum_list (map f (xs[a := y])) = sum_list (map f xs) - f (xs ! a) + f y"
  by (induction xs arbitrary: a) (auto split: nat.splits)

lemma list_all_update:
  "list_all P xs \<Longrightarrow> P y \<Longrightarrow> list_all P (xs[a := y])"
  by (induction xs arbitrary: a) (auto split: nat.splits)

lemma allocate_memory_inv:
  assumes "pool_inv s" "a < length (objects s)" "0 \<le> n"
  shows "pool_inv (fst (allocate_memory s a n))"
proof -
  have "0 \<le> memory_allocated (objects s ! a)"
    using assms(1,2) by (simp add: pool_inv_def list_all_length)
  then show ?thesis
    using assms
    by (simp add: pool_inv_def allocate_memory_def ledger_def sum_list_map_update
        list_all_update)
qed

lemma deallocate_memory_inv:
  assumes "pool_inv s" "a < length (objects s)"
  shows "pool_inv (fst (deallocate_memory s a))"
  using assms
  by (simp add: pool_inv_def deallocate_memory_def ledger_def sum_list_map_update
      list_all_update)

lemma allocate_memory_frame:
  "length (objects (fst (allocate_memory s a n))) = length (objects s)"
  "memory_pool (fst (allocate_memory s a n)) = memory_pool s"
  by (simp_all add: allocate_memory_def)

lemma deallocate_memory_frame:
  "length (objects (fst (deallocate_memory s a))) = length (objects s)"
  "memory_pool (fst (deallocate_memory s a)) = memory_pool s"
  by (simp_all add: deallocate_memory_def)

lemma mem_step_inv:
  "pool_inv s \<Longrightarrow> mem_op_ok (length (objects s)) x \<Longrightarrow> pool_inv (mem_step s x)"
  by (cases x) (simp_all add: allocate_memory_inv deallocate_memory_inv)

lemma mem_step_frame:
  "length (objects (mem_step s x)) = length (objects s)"
  "memory_pool (mem_step s x) = memory_pool s"
  by (cases x; simp add: allocate_memory_frame deallocate_memory_frame)+

lemma mem_run_inv:
  "pool_inv s \<Longrightarrow> list_all (mem_op_ok (length (objects s))) ops \<Longrightarrow>
     pool_inv (mem_run s ops) \<and> memory_pool (mem_run s ops) = memory_pool s"
  by (induction ops arbitrary: s) (simp_all add: mem_step_inv mem_step_frame)

lemma ledger_nonneg:
  "list_all (\<lambda>p. 0 \<le> memory_allocated p) (objects s) \<Longrightarrow> 0 \<le> ledger s"
  unfolding ledger_def by (rule sum_list_nonneg) (auto simp: list_all_iff)

lemma fresh_pool_inv:
  "list_all (\<lambda>p. memory_allocated p = 0) ps \<Longrightarrow> pool_inv (pool_start ps)"
  by (induction ps) (auto simp: pool_inv_def ledger_def Microkernel_init_def pool_start_def)

text \<open>
  Claim C1. Start from the initial pool, with any \<^verbatim>\<open>Process\<close> objects as their
  constructor makes them (nothing allocated), and run any sequence of
  \<^verbatim>\<open>allocate_memory\<close> and \<^verbatim>\<open>deallocate_memory\<close> calls on those objects with sizes that
  are not negative. Then the used counter is between 0 and the capacity, and the capacity
  is still 1 MiB. Moreover, in any state, \<^verbatim>\<open>allocate_memory\<close> returns false and changes
  nothing when used + size exceeds the capacity (and adds size otherwise), and
  \<^verbatim>\<open>deallocate_memory\<close> subtracts the recorded allocation when it is positive and
  nothing otherwise.
\<close>

theorem pool_used_within_bounds:
  fixes t :: "'m Microkernel"
  assumes "list_all (\<lambda>p. memory_allocated p = 0) ps"
    and "list_all (mem_op_ok (length ps)) ops"
  shows "0 \<le> memory_used (mem_run (pool_start ps :: 'm Microkernel) ops)
    \<and> memory_used (mem_run (pool_start ps :: 'm Microkernel) ops)
        \<le> memory_pool (mem_run (pool_start ps :: 'm Microkernel) ops)
    \<and> memory_pool (mem_run (pool_start ps :: 'm Microkernel) ops) = 1024 * 1024
    \<and> (if memory_used t + n > memory_pool t then allocate_memory t a n = (t, False)
        else memory_used (fst (allocate_memory t a n)) = memory_used t + n)
    \<and> memory_used (fst (deallocate_memory t a)) =
        memory_used t - (if 0 < memory_allocated (objects t ! a)
                         then memory_allocated (objects t ! a) else 0)"
proof -
  let ?i = "pool_start ps :: 'm Microkernel"
  let ?s = "mem_run ?i ops"
  have "pool_inv ?i" using assms(1) by (rule fresh_pool_inv)
  moreover have "list_all (mem_op_ok (length (objects ?i))) ops"
    using assms(2) by (simp add: pool_start_def)
  ultimately have inv: "pool_inv ?s" and cap: "memory_pool ?s = memory_pool ?i"
    using mem_run_inv [of ?i ops] by simp_all
  from inv have "0 \<le> ledger ?s" by (simp add: pool_inv_def ledger_nonneg)
  with inv have "0 \<le> memory_used ?s" "memory_used ?s \<le> memory_pool ?s"
    by (simp_all add: pool_inv_def)
  moreover have "memory_pool ?s = 1024 * 1024"
    using cap by (simp add: Microkernel_init_def pool_start_def)
  ultimately show ?thesis by (simp add: allocate_memory_def deallocate_memory_def)
qed

theorem pool_used_within_bounds_witness:
  "list_all (\<lambda>p. memory_allocated p = 0) [Process_init ''p1'' ''init'' 1 0]
   \<and> list_all (mem_op_ok (length [Process_init ''p1'' ''init'' 1 0]))
        [Allocate 0 600000, Allocate 0 500000, Deallocate 0, Allocate 0 7]
   \<and> memory_used (mem_run (pool_start [Process_init ''p1'' ''init'' 1 0] :: unit Microkernel)
        [Allocate 0 600000, Allocate 0 500000, Deallocate 0, Allocate 0 7]) = 7
   \<and> memory_pool (mem_run (pool_start [Process_init ''p1'' ''init'' 1 0] :: unit Microkernel)
        [Allocate 0 600000, Allocate 0 500000, Deallocate 0, Allocate 0 7]) = 1024 * 1024
   \<and> allocate_memory (pool_start [Process_init ''p1'' ''init'' 1 0] :: unit Microkernel) 0 2000000
        = (pool_start [Process_init ''p1'' ''init'' 1 0], False)"
  using pool_used_within_bounds [of "[Process_init ''p1'' ''init'' 1 0]"
      "[Allocate 0 600000, Allocate 0 500000, Deallocate 0, Allocate 0 7]"
      "pool_start [Process_init ''p1'' ''init'' 1 0] :: unit Microkernel" 2000000 0]
  by (simp add: Process_init_def pool_start_def Microkernel_init_def allocate_memory_def
      deallocate_memory_def)

section \<open>Process table: creation and termination\<close>

lemma example_kernel_eq:
  "example_kernel =
     \<lparr>objects = [\<lparr>pid = ''a1b2c3d4'', name = ''app'', priority = 1, state = READY,
                  memory_allocated = 1024, created_at = 0, thread = False\<rparr>],
      processes = [(''a1b2c3d4'', 0)], memory_pool = 1024 * 1024, memory_used = 1024,
      message_queue = [''a1b2c3d4'' \<mapsto> []], running = False,
      stats = \<lparr>processes_created = 1, processes_terminated = 0,
               services_registered = 0, messages_sent = 0\<rparr>\<rparr>"
  by (simp add: example_kernel_def create_process_def new_process_def allocate_memory_def
      Microkernel_init_def Process_init_def)

lemma full_kernel_eq:
  "full_kernel =
     \<lparr>objects = [\<lparr>pid = ''a1b2c3d4'', name = ''app'', priority = 1, state = READY,
                  memory_allocated = 1024 * 1024 - 1500, created_at = 0, thread = False\<rparr>],
      processes = [(''a1b2c3d4'', 0)], memory_pool = 1024 * 1024,
      memory_used = 1024 * 1024 - 476,
      message_queue = [''a1b2c3d4'' \<mapsto> []], running = False,
      stats = \<lparr>processes_created = 1, processes_terminated = 0,
               services_registered = 0, messages_sent = 0\<rparr>\<rparr>"
  by (simp add: full_kernel_def example_kernel_eq allocate_memory_def)

lemma create_process_fails:
  assumes "memory_pool s - memory_used s < 1024"
  shows "create_process s new_pid now nm tf prio =
           (s\<lparr>objects := objects s @ [Process_init new_pid nm prio now]\<rparr>,
            Inl (OutOfMemory nm))"
  using assms by (simp add: create_process_def new_process_def allocate_memory_def)

text \<open>
  Claim C2. In a kernel state whose free memory (capacity minus used) is less than the
  quota of 1024 bytes, \<^verbatim>\<open>create_process\<close> raises the out-of-memory exception and the
  kernel is as before: the process table, the inboxes, the used counter, the capacity, the
  statistics and the running flag are unchanged, and so is every object that existed.
  (The \<^verbatim>\<open>Process\<close> object the call constructed is in the store, referenced by nothing.)
\<close>

theorem create_process_out_of_memory:
  assumes "memory_pool s - memory_used s < 1024"
  shows "snd (create_process s new_pid now nm tf prio) = Inl (OutOfMemory nm)
    \<and> processes (fst (create_process s new_pid now nm tf prio)) = processes s
    \<and> message_queue (fst (create_process s new_pid now nm tf prio)) = message_queue s
    \<and> memory_used (fst (create_process s new_pid now nm tf prio)) = memory_used s
    \<and> memory_pool (fst (create_process s new_pid now nm tf prio)) = memory_pool s
    \<and> stats (fst (create_process s new_pid now nm tf prio)) = stats s
    \<and> running (fst (create_process s new_pid now nm tf prio)) = running s
    \<and> take (length (objects s)) (objects (fst (create_process s new_pid now nm tf prio)))
        = objects s
    \<and> list_processes (fst (create_process s new_pid now nm tf prio)) = list_processes s"
  by (simp add: create_process_fails [OF assms] list_processes_def)

theorem create_process_out_of_memory_witness:
  "memory_pool full_kernel - memory_used full_kernel < 1024
   \<and> snd (create_process full_kernel ''0f0f0f0f'' 5 ''editor'' True 2)
       = Inl (OutOfMemory ''editor'')
   \<and> processes (fst (create_process full_kernel ''0f0f0f0f'' 5 ''editor'' True 2))
       = [(''a1b2c3d4'', 0)]
   \<and> memory_used (fst (create_process full_kernel ''0f0f0f0f'' 5 ''editor'' True 2))
       = 1024 * 1024 - 476
   \<and> processes_created (stats (fst (create_process full_kernel ''0f0f0f0f'' 5 ''editor'' True 2)))
       = 1"
  using create_process_out_of_memory [of full_kernel "''0f0f0f0f''" 5 "''editor''" True 2]
  by (simp add: full_kernel_eq)

lemma map_of_delete_values:
  "distinct (map fst ps) \<Longrightarrow> distinct (map snd ps) \<Longrightarrow> map_of ps p = Some a \<Longrightarrow>
     map snd (AList.delete p ps) = remove1 a (map snd ps)"
proof (induction ps)
  case Nil
  then show ?case by simp
next
  case (Cons x ps)
  obtain k v where x: "x = (k, v)" by (cases x)
  show ?case
  proof (cases "k = p")
    case True
    with Cons.prems x have "a = v" "p \<notin> fst ` set ps" by auto
    then show ?thesis using x True by simp
  next
    case False
    with Cons.prems x have m: "map_of ps p = Some a" by simp
    then have "a \<in> snd ` set ps" by (metis map_of_SomeD image_eqI snd_conv)
    with Cons.prems(2) x have "v \<noteq> a" by auto
    with Cons x False m show ?thesis by simp
  qed
qed

lemma terminate_process_unknown:
  "map_of (processes s) p = None \<Longrightarrow> terminate_process s p = (s, False)"
  by (simp add: terminate_process_def)

lemma terminate_process_known:
  assumes "map_of (processes s) p = Some a" "a < length (objects s)"
    "0 \<le> memory_allocated (objects s ! a)"
  shows "snd (terminate_process s p) = True"
    "processes (fst (terminate_process s p)) = AList.delete p (processes s)"
    "message_queue (fst (terminate_process s p)) = (message_queue s)(p := None)"
    "memory_used (fst (terminate_process s p)) = memory_used s - memory_allocated (objects s ! a)"
    "memory_pool (fst (terminate_process s p)) = memory_pool s"
    "length (objects (fst (terminate_process s p))) = length (objects s)"
  using assms
  by (auto simp: terminate_process_def deallocate_memory_def Let_def fun_upd_idem_iff domIff)

lemma kernel_wf_init: "kernel_wf Microkernel_init"
  by (simp add: kernel_wf_def Microkernel_init_def)

lemma values_update_subset:
  "snd ` set (AList.update k v ps) \<subseteq> insert v (snd ` set ps)"
  by (induction ps) auto

lemma values_update_mem:
  "(x, y) \<in> set (AList.update k v ps) \<Longrightarrow> y = v \<or> y \<in> snd ` set ps"
  using values_update_subset [of k v ps] by force

lemma distinct_values_update:
  "distinct (map snd ps) \<Longrightarrow> v \<notin> snd ` set ps \<Longrightarrow> distinct (map snd (AList.update k v ps))"
proof (induction ps)
  case Nil
  then show ?case by simp
next
  case (Cons x ps)
  obtain k' v' where x: "x = (k', v')" by (cases x)
  show ?case
  proof (cases "k' = k")
    case True
    with Cons.prems x show ?thesis by auto
  next
    case False
    have "v' \<notin> snd ` set (AList.update k v ps)"
      using Cons.prems x values_update_subset [of k v ps] by auto
    with Cons x False show ?thesis by simp
  qed
qed

lemma kernel_wf_allocate:
  "kernel_wf s \<Longrightarrow> 0 \<le> n \<Longrightarrow> kernel_wf (fst (allocate_memory s a n))"
  by (simp add: kernel_wf_def allocate_memory_def list_all_update)

lemma kernel_wf_deallocate:
  "kernel_wf s \<Longrightarrow> kernel_wf (fst (deallocate_memory s a))"
  by (simp add: kernel_wf_def deallocate_memory_def list_all_update)

lemma kernel_wf_create:
  assumes "kernel_wf s"
  shows "kernel_wf (fst (create_process s new_pid now nm tf prio))"
proof -
  let ?n = "length (objects s)"
  have fresh: "?n \<notin> snd ` set (processes s)"
    using assms by (auto simp: kernel_wf_def list_all_iff)
  have 1: "distinct (map fst (AList.update new_pid ?n (processes s)))"
    using assms by (simp add: kernel_wf_def distinct_update)
  have 2: "distinct (map snd (AList.update new_pid ?n (processes s)))"
    using assms fresh by (simp add: kernel_wf_def distinct_values_update)
  have 3: "list_all (\<lambda>a. a < Suc ?n) (map snd (AList.update new_pid ?n (processes s)))"
    using assms values_update_subset [of new_pid ?n "processes s"]
    by (fastforce simp: kernel_wf_def list_all_iff)
  have 4: "list_all (\<lambda>a. a < Suc ?n) (map snd (processes s))"
    using assms by (auto simp: kernel_wf_def list_all_iff)
  show ?thesis
    using assms 1 2 3 4
    by (auto simp: kernel_wf_def create_process_def new_process_def allocate_memory_def
        Process_init_def Let_def list_all_update)
qed

lemma kernel_wf_terminate:
  assumes "kernel_wf s"
  shows "kernel_wf (fst (terminate_process s p))"
proof (cases "map_of (processes s) p")
  case None
  then show ?thesis using assms by (simp add: terminate_process_def)
next
  case (Some a)
  have "distinct (map snd (AList.delete p (processes s)))"
    using assms by (simp add: kernel_wf_def AList.delete_eq distinct_map_filter)
  moreover have "list_all (\<lambda>a. a < length (objects s)) (map snd (AList.delete p (processes s)))"
    using assms by (auto simp: kernel_wf_def AList.delete_eq list_all_iff)
  moreover have "a \<in> set (map snd (processes s))"
    using Some by (metis map_of_SomeD image_eqI snd_conv set_map)
  then have "0 \<le> memory_allocated (objects s ! a)"
    using assms by (auto simp: kernel_wf_def list_all_iff list_all_length)
  ultimately show ?thesis
    using assms Some
    by (auto simp: kernel_wf_def terminate_process_def deallocate_memory_def Let_def
        list_all_update distinct_delete)
qed

lemma kernel_wf_send: "kernel_wf s \<Longrightarrow> kernel_wf (fst (send_message s f t m now))"
  by (auto simp: kernel_wf_def send_message_def split: option.splits)

lemma kernel_wf_receive: "kernel_wf s \<Longrightarrow> kernel_wf (fst (receive_message s p))"
  by (auto simp: kernel_wf_def receive_message_def split: option.splits list.splits)

text \<open>
  Claim C3. In every well-formed kernel state: \<^verbatim>\<open>terminate_process\<close> on an id that is
  not in the process table returns false and changes nothing; on an id of the table it
  returns true, and afterwards the process is not in \<^verbatim>\<open>list_processes\<close> (which lost
  exactly that entry), \<^verbatim>\<open>get_process\<close> does not find the id, the id has no message
  queue, and the used counter of the pool is smaller by exactly the allocation the
  process had recorded.
\<close>

theorem terminate_process_effect:
  assumes "kernel_wf s"
  shows "(p \<notin> fst ` set (processes s) \<longrightarrow> terminate_process s p = (s, False))
    \<and> (\<forall>a. map_of (processes s) p = Some a \<longrightarrow>
          snd (terminate_process s p) = True
        \<and> a \<notin> set (list_processes (fst (terminate_process s p)))
        \<and> list_processes (fst (terminate_process s p)) = remove1 a (list_processes s)
        \<and> get_process (fst (terminate_process s p)) p = None
        \<and> message_queue (fst (terminate_process s p)) p = None
        \<and> memory_used (fst (terminate_process s p))
            = memory_used s - memory_allocated (objects s ! a))"
proof -
  have unknown: "terminate_process s p = (s, False)" if "p \<notin> fst ` set (processes s)"
    using that by (simp add: terminate_process_unknown map_of_eq_None_iff)
  have known: "snd (terminate_process s p) = True
        \<and> a \<notin> set (list_processes (fst (terminate_process s p)))
        \<and> list_processes (fst (terminate_process s p)) = remove1 a (list_processes s)
        \<and> get_process (fst (terminate_process s p)) p = None
        \<and> message_queue (fst (terminate_process s p)) p = None
        \<and> memory_used (fst (terminate_process s p))
            = memory_used s - memory_allocated (objects s ! a)"
    if m: "map_of (processes s) p = Some a" for a
  proof -
    from m have "a \<in> set (map snd (processes s))"
      by (metis map_of_SomeD image_eqI snd_conv set_map)
    with assms have v: "a < length (objects s)" and nn: "0 \<le> memory_allocated (objects s ! a)"
      by (auto simp: kernel_wf_def list_all_iff list_all_length)
    have d: "distinct (map fst (processes s))" "distinct (map snd (processes s))"
      using assms by (simp_all add: kernel_wf_def)
    have l: "list_processes (fst (terminate_process s p)) = remove1 a (list_processes s)"
      by (simp add: list_processes_def terminate_process_known(2)[OF m v nn]
          map_of_delete_values[OF d m])
    have "a \<notin> set (remove1 a (list_processes s))"
      using d(2) by (simp add: list_processes_def)
    moreover have "get_process (fst (terminate_process s p)) p = None"
      by (simp add: get_process_def terminate_process_known(2)[OF m v nn] delete_conv')
    ultimately show ?thesis
      using l terminate_process_known(1,3,4)[OF m v nn] by simp
  qed
  from unknown known show ?thesis by blast
qed

theorem terminate_process_effect_witness:
  "kernel_wf example_kernel
   \<and> ''ffffffff'' \<notin> fst ` set (processes example_kernel)
   \<and> terminate_process example_kernel ''ffffffff'' = (example_kernel, False)
   \<and> map_of (processes example_kernel) ''a1b2c3d4'' = Some 0
   \<and> snd (terminate_process example_kernel ''a1b2c3d4'') = True
   \<and> list_processes (fst (terminate_process example_kernel ''a1b2c3d4'')) = []
   \<and> message_queue (fst (terminate_process example_kernel ''a1b2c3d4'')) ''a1b2c3d4'' = None
   \<and> memory_used (fst (terminate_process example_kernel ''a1b2c3d4'')) = 0"
proof -
  have wf: "kernel_wf example_kernel"
    unfolding example_kernel_def by (intro kernel_wf_create kernel_wf_init)
  have m: "map_of (processes example_kernel) ''a1b2c3d4'' = Some 0"
    by (simp add: example_kernel_eq)
  have u: "''ffffffff'' \<notin> fst ` set (processes example_kernel)"
    by (simp add: example_kernel_eq)
  show ?thesis
    using wf m u terminate_process_effect [OF wf, of "''ffffffff''"]
      terminate_process_effect [OF wf, of "''a1b2c3d4''"]
    by (simp add: example_kernel_eq list_processes_def)
qed

section \<open>Kernel messages: order of delivery\<close>

lemma send_message_live:
  "message_queue s P = Some q \<Longrightarrow>
     snd (send_message s f P m t) = True \<and>
     message_queue (fst (send_message s f P m t)) = (message_queue s)(P \<mapsto> q @ [mk_msg P (f, m, t)])"
  by (simp add: send_message_def mk_msg_def)

lemma send_all_queue:
  "message_queue s P = Some q \<Longrightarrow>
     snd (send_all s P ms) = replicate (length ms) True \<and>
     message_queue (fst (send_all s P ms)) P = Some (q @ map (mk_msg P) ms)"
proof (induction ms arbitrary: s q)
  case Nil
  then show ?case by simp
next
  case (Cons x ms)
  obtain f m t where x: "x = (f, m, t)" by (cases x)
  let ?s1 = "fst (send_message s f P m t)"
  have q1: "message_queue ?s1 P = Some (q @ [mk_msg P (f, m, t)])"
    using send_message_live [OF Cons.prems] by simp
  show ?case
    using Cons.IH [OF q1] send_message_live [OF Cons.prems, of f m t] x
    by (simp add: split_beta)
qed

lemma receive_n_queue:
  "message_queue s P = Some q \<Longrightarrow>
     snd (receive_n s P n) = map Some (take n q) @ replicate (n - length q) None \<and>
     message_queue (fst (receive_n s P n)) P = Some (drop n q)"
proof (induction n arbitrary: s q)
  case 0
  then show ?case by simp
next
  case (Suc n)
  show ?case
  proof (cases q)
    case Nil
    then have r: "receive_message s P = (s, None)"
      using Suc.prems by (simp add: receive_message_def)
    show ?thesis using Suc.IH [OF Suc.prems] r Nil by (simp add: split_beta)
  next
    case (Cons m q')
    then have r: "receive_message s P = (s\<lparr>message_queue := (message_queue s)(P \<mapsto> q')\<rparr>, Some m)"
      using Suc.prems by (simp add: receive_message_def)
    have "message_queue (s\<lparr>message_queue := (message_queue s)(P \<mapsto> q')\<rparr>) P = Some q'" by simp
    from Suc.IH [OF this] r Cons show ?thesis by (simp add: split_beta)
  qed
qed

text \<open>
  Claim C4. Delivery to a receiver is first in, first out. Let \<open>P\<close> be a live receiver
  (it has an inbox), and let A, B, C be sent to \<open>P\<close> in that order with no receive in
  between. All three sends succeed. With the inbox empty at the first send, three
  successive receives return A, then B, then C, and a further receive returns null. In
  general, with the messages \<open>q\<close> pending at the first send, the receives return the
  messages of \<open>q\<close> in their order, then A, B, C (each with its sender, receiver and time
  stamp), and then null.
\<close>

theorem message_fifo:
  assumes "message_queue s P = Some q"
  shows "snd (send_all s P [(fa, A, ta), (fb, B, tb), (fc, C, tc)]) = [True, True, True]
    \<and> snd (receive_n (fst (send_all s P [(fa, A, ta), (fb, B, tb), (fc, C, tc)])) P (length q + 4))
        = map Some q @
          [Some \<lparr>msg_from = fa, msg_to = P, msg_message = A, msg_timestamp = ta\<rparr>,
           Some \<lparr>msg_from = fb, msg_to = P, msg_message = B, msg_timestamp = tb\<rparr>,
           Some \<lparr>msg_from = fc, msg_to = P, msg_message = C, msg_timestamp = tc\<rparr>, None]
    \<and> (if q = [] then
          map (map_option msg_message)
            (snd (receive_n (fst (send_all s P [(fa, A, ta), (fb, B, tb), (fc, C, tc)])) P 4))
          = [Some A, Some B, Some C, None]
        else
          map (map_option msg_message)
            (snd (receive_n (fst (send_all s P [(fa, A, ta), (fb, B, tb), (fc, C, tc)])) P 1))
          = [Some (msg_message (hd q))])"
proof -
  let ?ms = "[(fa, A, ta), (fb, B, tb), (fc, C, tc)]"
  let ?s = "fst (send_all s P ?ms)"
  have s: "snd (send_all s P ?ms) = [True, True, True]"
    and q: "message_queue ?s P = Some (q @ map (mk_msg P) ?ms)"
    using send_all_queue [OF assms, of ?ms] by (simp_all add: numeral_3_eq_3)
  have 1: "snd (receive_n ?s P (length q + 4)) = map Some (q @ map (mk_msg P) ?ms) @ [None]"
    using receive_n_queue [OF q, of "length q + 4"] by simp
  have 2: "snd (receive_n ?s P 4) = map Some (map (mk_msg P) ?ms) @ [None]" if "q = []"
    using receive_n_queue [OF q, of 4] that by simp
  have 3: "snd (receive_n ?s P 1) = [Some (hd q)]" if "q \<noteq> []"
    using receive_n_queue [OF q, of 1] that by (cases q) simp_all
  show ?thesis using s 1 2 3 by (simp add: mk_msg_def)
qed

lemma busy_kernel_queue:
  "message_queue busy_kernel ''a1b2c3d4'' =
     Some [\<lparr>msg_from = ''5e5e5e5e'', msg_to = ''a1b2c3d4'', msg_message = ''X'', msg_timestamp = 1\<rparr>]"
  by (simp add: busy_kernel_def example_kernel_eq send_message_def)

theorem message_fifo_witness:
  "message_queue busy_kernel ''a1b2c3d4'' =
     Some [\<lparr>msg_from = ''5e5e5e5e'', msg_to = ''a1b2c3d4'', msg_message = ''X'', msg_timestamp = 1\<rparr>]
   \<and> map (map_option msg_message) (snd (receive_n (fst (send_all busy_kernel ''a1b2c3d4''
        [(''5e5e5e5e'', ''A'', 2), (''a1b2c3d4'', ''B'', 3), (''77777777'', ''C'', 4)])) ''a1b2c3d4'' 5))
     = [Some ''X'', Some ''A'', Some ''B'', Some ''C'', None]
   \<and> message_queue example_kernel ''a1b2c3d4'' = Some []
   \<and> map (map_option msg_message) (snd (receive_n (fst (send_all example_kernel ''a1b2c3d4''
        [(''5e5e5e5e'', ''A'', 2), (''a1b2c3d4'', ''B'', 3), (''77777777'', ''C'', 4)])) ''a1b2c3d4'' 4))
     = [Some ''A'', Some ''B'', Some ''C'', None]"
proof -
  have e: "message_queue example_kernel ''a1b2c3d4'' = Some []"
    by (simp add: example_kernel_eq)
  show ?thesis
    using busy_kernel_queue e
      message_fifo [OF busy_kernel_queue, of "''5e5e5e5e''" "''A''" 2 "''a1b2c3d4''" "''B''" 3 "''77777777''" "''C''" 4]
      message_fifo [OF e, of "''5e5e5e5e''" "''A''" 2 "''a1b2c3d4''" "''B''" 3 "''77777777''" "''C''" 4]
    by simp
qed

section \<open>Sending: the kernel against the IPC manager\<close>

text \<open>
  Claim C10. The kernel's \<^verbatim>\<open>send_message\<close> does not look at the sender: whenever the
  receiver id has an inbox, the call returns true and appends the message to that inbox,
  whatever the sender id is, also one that names no process. The IPC manager's
  \<^verbatim>\<open>send_message\<close> returns true exactly when both the sender and the receiver are in the
  kernel's process table; it then appends to the receiver's list, and otherwise changes
  nothing.
\<close>

theorem kernel_send_ignores_sender:
  assumes "message_queue s to_pid = Some q"
  shows "send_message s from_pid to_pid m now =
      (s\<lparr>message_queue := (message_queue s)(to_pid \<mapsto> q @
            [\<lparr>msg_from = from_pid, msg_to = to_pid, msg_message = m, msg_timestamp = now\<rparr>]),
         stats := (stats s)\<lparr>messages_sent := messages_sent (stats s) + 1\<rparr>\<rparr>, True)
    \<and> snd (ipc_send_message ipc s from_pid to_pid d ty now) =
        (from_pid \<in> fst ` set (processes s) \<and> to_pid \<in> fst ` set (processes s))
    \<and> (if from_pid \<in> fst ` set (processes s) \<and> to_pid \<in> fst ` set (processes s)
        then messages (fst (ipc_send_message ipc s from_pid to_pid d ty now)) to_pid =
          Some ((case messages ipc to_pid of None \<Rightarrow> [] | Some old \<Rightarrow> old) @
            [\<lparr>sender = from_pid, receiver = to_pid, data = d, msg_type = ty, timestamp = now\<rparr>])
        else fst (ipc_send_message ipc s from_pid to_pid d ty now) = ipc)"
proof -
  have k: "(get_process s x = None) = (x \<notin> fst ` set (processes s))" for x
    by (simp add: get_process_def map_of_eq_None_iff)
  show ?thesis
    using assms by (auto simp: send_message_def ipc_send_message_def k Let_def)
qed

theorem kernel_send_ignores_sender_witness:
  "message_queue example_kernel ''a1b2c3d4'' = Some []
   \<and> ''deadbeef'' \<notin> fst ` set (processes example_kernel)
   \<and> snd (send_message example_kernel ''deadbeef'' ''a1b2c3d4'' ''hello'' 7) = True
   \<and> message_queue (fst (send_message example_kernel ''deadbeef'' ''a1b2c3d4'' ''hello'' 7)) ''a1b2c3d4''
       = Some [\<lparr>msg_from = ''deadbeef'', msg_to = ''a1b2c3d4'', msg_message = ''hello'', msg_timestamp = 7\<rparr>]
   \<and> ipc_send_message (IPCManager_init :: string IPCManager) example_kernel ''deadbeef'' ''a1b2c3d4'' ''hello'' ''data'' 7
       = (IPCManager_init, False)
   \<and> snd (ipc_send_message (IPCManager_init :: string IPCManager) example_kernel ''a1b2c3d4'' ''a1b2c3d4'' ''hello'' ''data'' 7)
       = True"
proof -
  have e: "message_queue example_kernel ''a1b2c3d4'' = Some []"
    by (simp add: example_kernel_eq)
  have p: "processes example_kernel = [(''a1b2c3d4'', 0)]"
    by (simp add: example_kernel_eq)
  show ?thesis
    using e kernel_send_ignores_sender [OF e, of "''deadbeef''" "''hello''" 7 "IPCManager_init :: string IPCManager" "''hello''" "''data''"]
      kernel_send_ignores_sender [OF e, of "''a1b2c3d4''" "''hello''" 7 "IPCManager_init :: string IPCManager" "''hello''" "''data''"]
    by (simp add: p prod_eq_iff)
qed

section \<open>Shared memory: authorization and round trip\<close>

text \<open>
  Claim C6. For every shared-memory segment, process id, key and value: if the process id
  is not in the authorization list, \<^verbatim>\<open>read\<close> returns null and \<^verbatim>\<open>write\<close> returns false,
  and both leave the segment (its data included) as it was; if it is in the list,
  \<^verbatim>\<open>write\<close> returns true, stores the value under the key, and a \<^verbatim>\<open>read\<close> of that key
  right after returns exactly that value. In particular both succeed right after
  \<^verbatim>\<open>authorize_process\<close>.
\<close>

theorem shared_memory_access:
  "(if process_id \<notin> set (authorized_processes m)
    then shm_read m process_id k = (m, None) \<and> shm_write m process_id k v = (m, False)
    else snd (shm_write m process_id k v) = True
       \<and> snd (shm_read (fst (shm_write m process_id k v)) process_id k) = Some v
       \<and> shm_data (fst (shm_write m process_id k v)) = (shm_data m)(k \<mapsto> v))
   \<and> snd (shm_write (authorize_process m process_id) process_id k v) = True
   \<and> snd (shm_read (fst (shm_write (authorize_process m process_id) process_id k v))
        process_id k) = Some v"
  by (simp add: shm_read_def shm_write_def authorize_process_def)

theorem shared_memory_access_witness:
  "''p2'' \<notin> set (authorized_processes (authorize_process (SharedMemory_init ''seg'' 1024) ''p1''))
   \<and> shm_read (authorize_process (SharedMemory_init ''seg'' 1024 :: string SharedMemory) ''p1'') ''p2'' ''key''
       = (authorize_process (SharedMemory_init ''seg'' 1024) ''p1'', None)
   \<and> shm_write (authorize_process (SharedMemory_init ''seg'' 1024) ''p1'') ''p2'' ''key'' ''val''
       = (authorize_process (SharedMemory_init ''seg'' 1024) ''p1'', False)
   \<and> ''p1'' \<in> set (authorized_processes (authorize_process (SharedMemory_init ''seg'' 1024) ''p1''))
   \<and> snd (shm_write (authorize_process (SharedMemory_init ''seg'' 1024) ''p1'') ''p1'' ''key'' ''val'') = True
   \<and> snd (shm_read (fst (shm_write (authorize_process (SharedMemory_init ''seg'' 1024) ''p1'')
        ''p1'' ''key'' ''val'')) ''p1'' ''key'') = Some ''val''"
  using shared_memory_access [of "''p2''" "authorize_process (SharedMemory_init ''seg'' 1024) ''p1''" "''key''" "''val''"]
    shared_memory_access [of "''p1''" "authorize_process (SharedMemory_init ''seg'' 1024) ''p1''" "''key''" "''val''"]
  by (simp add: authorize_process_def SharedMemory_init_def)

section \<open>Semaphore: the count is never negative\<close>

lemma acquire_pass_value:
  "sem_value (fst (acquire_pass s p timeout elapsed)) =
     (if sem_value s \<le> 0 then sem_value s else sem_value s - 1)"
  by (simp add: acquire_pass_def Let_def split: option.splits)

lemma sem_step_nonneg: "0 \<le> sem_value s \<Longrightarrow> 0 \<le> sem_value (sem_step s e)"
  by (cases e) (simp_all add: acquire_pass_value release_def)

lemma sem_run_nonneg: "0 \<le> sem_value s \<Longrightarrow> 0 \<le> sem_value (sem_run s es)"
  by (induction es arbitrary: s) (simp_all add: sem_step_nonneg)

text \<open>
  Claim C8. A semaphore created with an initial value that is not negative has a count
  of at least zero after every sequence of \<^verbatim>\<open>acquire\<close> passes and \<^verbatim>\<open>release\<close> calls, in
  any interleaving. A pass of \<^verbatim>\<open>acquire\<close> decrements only a strictly positive count and
  then returns true; on a count of zero or less it leaves the count alone and either
  parks the caller, who is then in the waiter list, or times out (\<^verbatim>\<open>acquire\<close> returns
  false). \<^verbatim>\<open>release\<close> adds one.
\<close>

theorem semaphore_value_nonneg:
  assumes "0 \<le> v"
  shows "0 \<le> sem_value (sem_run (Semaphore_init n v) es)
    \<and> (if sem_value s \<le> 0
        then sem_value (fst (acquire_pass s p timeout elapsed)) = sem_value s
           \<and> (snd (acquire_pass s p timeout elapsed) = Parked
                \<and> p \<in> set (waiting_processes (fst (acquire_pass s p timeout elapsed)))
              \<or> snd (acquire_pass s p timeout elapsed) = TimedOut)
        else sem_value (fst (acquire_pass s p timeout elapsed)) = sem_value s - 1
           \<and> snd (acquire_pass s p timeout elapsed) = Acquired)
    \<and> sem_value (release s p) = sem_value s + 1"
proof -
  have "0 \<le> sem_value (sem_run (Semaphore_init n v) es)"
    using assms by (intro sem_run_nonneg) (simp add: Semaphore_init_def)
  moreover have "snd (acquire_pass s p timeout elapsed) = Parked
                \<and> p \<in> set (waiting_processes (fst (acquire_pass s p timeout elapsed)))
              \<or> snd (acquire_pass s p timeout elapsed) = TimedOut" if "sem_value s \<le> 0"
    using that by (auto simp: acquire_pass_def Let_def split: option.splits)
  moreover have "snd (acquire_pass s p timeout elapsed) = Acquired" if "\<not> sem_value s \<le> 0"
    using that by (auto simp: acquire_pass_def Let_def)
  ultimately show ?thesis by (simp add: acquire_pass_value release_def)
qed

theorem semaphore_value_nonneg_witness:
  "(0::int) \<le> 1
   \<and> sem_value (sem_run (Semaphore_init ''mutex'' 1)
        [AcquirePass ''p1'' None 0, AcquirePass ''p2'' (Some 2) 0, AcquirePass ''p2'' (Some 2) 2,
         AcquirePass ''p3'' None 0, Release ''p1'', AcquirePass ''p3'' None 5]) = 0
   \<and> acquire_pass (Semaphore_init ''mutex'' 0) ''p2'' (Some 2) 2 = (Semaphore_init ''mutex'' 0, TimedOut)
   \<and> snd (acquire_pass (Semaphore_init ''mutex'' 0) ''p2'' None 2) = Parked
   \<and> snd (acquire_pass (Semaphore_init ''mutex'' 1) ''p2'' None 0) = Acquired"
  using semaphore_value_nonneg [of 1 "''mutex''"
      "[AcquirePass ''p1'' None 0, AcquirePass ''p2'' (Some 2) 0, AcquirePass ''p2'' (Some 2) 2,
         AcquirePass ''p3'' None 0, Release ''p1'', AcquirePass ''p3'' None 5]"
      "Semaphore_init ''mutex'' 0" "''p2''" "Some 2" 2]
  by (simp add: Semaphore_init_def acquire_pass_def release_def)

section \<open>Pipes: what a failed read returns\<close>

lemma example_ipc_pipes:
  "pipes example_ipc = [''log'' \<mapsto> \<lparr>pipe_name = ''log'', pipe_queue = [], maxsize = 2,
      readers = [''reader01''], writers = [], pipe_created_at = 0\<rparr>]"
  by (simp add: example_ipc_def create_pipe_def add_pipe_reader_def IPCManager_init_def
      Pipe_init_def add_reader_def)

theorem pipe_read_failures_counterexample:
  "snd (read_pipe example_ipc ''nopipe'' ''reader01'' (Some 1)) = Return None
   \<and> snd (read_pipe example_ipc ''log'' ''intruder'' (Some 1)) = Return None
   \<and> snd (read_pipe example_ipc ''log'' ''reader01'' (Some 1)) = Return None"
  by (simp add: read_pipe_def pipe_read_def example_ipc_pipes)

text \<open>
  Claim C5, as amended. The failures of a pipe read are not told apart by the returned
  value: \<^verbatim>\<open>read_pipe\<close> returns null, and leaves the manager unchanged, when the pipe
  name is unknown, when the caller is not among the pipe's readers, and when the caller is
  a reader, the queue is empty and the wait ends by the timeout (a timeout that is not
  negative).
\<close>

theorem pipe_read_failures_same_value:
  "(pipes ipc pname = None \<longrightarrow> read_pipe ipc pname process_id timeout = (ipc, Return None))
   \<and> (\<forall>p. pipes ipc pname = Some p \<and> process_id \<notin> set (readers p) \<longrightarrow>
          read_pipe ipc pname process_id timeout = (ipc, Return None))
   \<and> (\<forall>p t. pipes ipc pname = Some p \<and> process_id \<in> set (readers p) \<and> pipe_queue p = []
          \<and> timeout = Some t \<and> 0 \<le> t \<longrightarrow>
          read_pipe ipc pname process_id timeout = (ipc, Return None))"
  by (auto simp: read_pipe_def pipe_read_def map_upd_triv)

theorem pipe_read_failures_same_value_witness:
  "pipes example_ipc ''nopipe'' = None
   \<and> read_pipe example_ipc ''nopipe'' ''reader01'' (Some 1) = (example_ipc, Return None)
   \<and> ''intruder'' \<notin> set (readers (the (pipes example_ipc ''log'')))
   \<and> read_pipe example_ipc ''log'' ''intruder'' (Some 1) = (example_ipc, Return None)
   \<and> ''reader01'' \<in> set (readers (the (pipes example_ipc ''log'')))
   \<and> pipe_queue (the (pipes example_ipc ''log'')) = []
   \<and> read_pipe example_ipc ''log'' ''reader01'' (Some 1) = (example_ipc, Return None)"
  using pipe_read_failures_same_value [of example_ipc "''nopipe''" "''reader01''" "Some 1"]
    pipe_read_failures_same_value [of example_ipc "''log''" "''intruder''" "Some 1"]
    pipe_read_failures_same_value [of example_ipc "''log''" "''reader01''" "Some 1"]
  by (simp add: example_ipc_pipes)

section \<open>Round robin: the selection function\<close>

lemma key_le_before:
  "((- priority (objs ! a), created_at (objs ! a)) \<le> (- priority (objs ! b), created_at (objs ! b)))
     = before objs a b"
  by (auto simp: less_eq_prod_def before_def)

lemma sort_ready_sorted: "sorted_wrt (before objs) (sort_ready objs ready)"
proof -
  have "sorted (map (\<lambda>a. (- priority (objs ! a), created_at (objs ! a))) (sort_ready objs ready))"
    unfolding sort_ready_def by (rule sorted_sort_key)
  then have "sorted_wrt (\<lambda>a b. (- priority (objs ! a), created_at (objs ! a))
      \<le> (- priority (objs ! b), created_at (objs ! b))) (sort_ready objs ready)"
    by (simp only: sorted_map)
  then show ?thesis by (simp only: key_le_before)
qed

lemma sort_ready_set: "set (sort_ready objs ready) = set ready"
  by (simp add: sort_ready_def)

lemma sort_ready_length: "length (sort_ready objs ready) = length ready"
  by (simp add: sort_ready_def)

lemma sort_ready_stable:
  "filter (\<lambda>a. priority (objs ! a) = p \<and> created_at (objs ! a) = t) (sort_ready objs ready)
     = filter (\<lambda>a. priority (objs ! a) = p \<and> created_at (objs ! a) = t) ready"
  using sort_key_stable [of "\<lambda>a. (- priority (objs ! a), created_at (objs ! a))" "(- p, t)" ready]
  by (simp add: sort_ready_def)

lemma list_index_Some:
  "c \<in> set xs \<Longrightarrow> \<exists>i. list_index xs c = Some i \<and> i < length xs"
  by (induction xs) auto

lemma list_index_next:
  "list_index xs c = Some i \<Longrightarrow>
     (case dropWhile (\<lambda>x. x \<noteq> c) xs of _ # y # _ \<Rightarrow> y | _ \<Rightarrow> d)
       = (if i + 1 < length xs then xs ! (i + 1) else d)"
proof (induction xs arbitrary: i)
  case Nil
  then show ?case by simp
next
  case (Cons x xs)
  show ?case
  proof (cases "x = c")
    case True
    with Cons.prems have "i = 0" by simp
    with True show ?thesis by (cases xs) simp_all
  next
    case False
    with Cons.prems obtain j where j: "list_index xs c = Some j" "i = Suc j" by auto
    with Cons.IH [OF j(1)] False show ?thesis by simp
  qed
qed

lemma list_index_cyclic:
  assumes "list_index xs c = Some i" "i < length xs"
  shows "xs ! ((i + 1) mod length xs) = cyclic_next xs c"
proof (cases "i + 1 < length xs")
  case True
  then show ?thesis using list_index_next [OF assms(1), of "hd xs"] by (simp add: cyclic_next_def)
next
  case False
  with assms(2) have "i + 1 = length xs" by simp
  moreover from assms(2) have "xs \<noteq> []" by auto
  ultimately show ?thesis
    using list_index_next [OF assms(1), of "hd xs"] by (simp add: cyclic_next_def hd_conv_nth)
qed

lemma cyclic_next_in_set: "xs \<noteq> [] \<Longrightarrow> cyclic_next xs c \<in> set xs"
proof -
  assume ne: "xs \<noteq> []"
  have "set (dropWhile (\<lambda>x. x \<noteq> c) xs) \<subseteq> set xs" by (rule set_dropWhileD [THEN subsetI]) 
  then show ?thesis using ne
    by (auto simp: cyclic_next_def split: list.splits)
qed

lemma select_next_process_band:
  "select_next_process objs sch ready =
     (if ready = [] then Inr None
      else case current_process sch of
             None \<Rightarrow> Inr (Some (sort_ready objs ready ! 0))
           | Some c \<Rightarrow>
               if c \<in> set ready \<and> length (band objs c (sort_ready objs ready)) > 1
               then (case list_index (band objs c (sort_ready objs ready)) c of
                       None \<Rightarrow> Inl IndexValueError
                     | Some i \<Rightarrow>
                         Inr (Some (band objs c (sort_ready objs ready) !
                           ((i + 1) mod length (band objs c (sort_ready objs ready))))))
               else Inr (Some (sort_ready objs ready ! 0)))"
  by (simp add: select_next_process_def band_def Let_def sort_ready_set split: option.splits)


lemma select_next_process_spec:
  assumes "ready \<noteq> []"
  shows "select_next_process objs sch ready = Inr (Some
        (case current_process sch of
           None \<Rightarrow> hd (sort_ready objs ready)
         | Some c \<Rightarrow>
             if c \<in> set ready \<and> length (band objs c (sort_ready objs ready)) > 1
             then cyclic_next (band objs c (sort_ready objs ready)) c
             else hd (sort_ready objs ready)))"
proof -
  let ?rs = "sort_ready objs ready"
  have ne: "?rs \<noteq> []"
    using assms sort_ready_length [of objs ready] by (metis length_0_conv)
  have hd: "?rs ! 0 = hd ?rs" using ne by (simp add: hd_conv_nth)
  show ?thesis
  proof (cases "current_process sch")
    case None
    then show ?thesis using assms hd by (simp add: select_next_process_band)
  next
    case (Some c)
    show ?thesis
    proof (cases "c \<in> set ready \<and> length (band objs c ?rs) > 1")
      case True
      then have "c \<in> set (band objs c ?rs)" by (simp add: band_def sort_ready_set)
      from list_index_Some [OF this]
      obtain i where i: "list_index (band objs c ?rs) c = Some i"
        "i < length (band objs c ?rs)"
        by (elim exE conjE)
      have "band objs c ?rs ! ((i + 1) mod length (band objs c ?rs))
          = cyclic_next (band objs c ?rs) c"
        using i by (rule list_index_cyclic)
      then show ?thesis
        using assms Some True i(1) by (simp add: select_next_process_band)
    next
      case False
      then show ?thesis
        using assms Some hd by (auto simp: select_next_process_band)
    qed
  qed
qed

lemma cyclic_next_in_band:
  assumes "length (band objs c (sort_ready objs ready)) > 1"
  shows "cyclic_next (band objs c (sort_ready objs ready)) c \<in> set ready
        \<and> priority (objs ! cyclic_next (band objs c (sort_ready objs ready)) c)
            = priority (objs ! c)"
proof -
  from assms have "band objs c (sort_ready objs ready) \<noteq> []" by auto
  then have "cyclic_next (band objs c (sort_ready objs ready)) c
      \<in> set (band objs c (sort_ready objs ready))"
    by (rule cyclic_next_in_set)
  then show ?thesis by (simp add: band_def sort_ready_set)
qed

text \<open>
  Claim C9, as amended. For every ready list that is not empty, the selection orders the
  ready processes by priority descending, then creation time ascending (the ordered list
  is a permutation of the ready list). If there is a current process, the current process
  is itself in the ready list, and more than one ready process has its priority, the
  selection returns the cyclically next process of that band after the current one: a
  ready process of the current one's priority. In every other case, also when the
  current process is not in the ready list, it returns the first entry of the ordered
  ready list.
\<close>

theorem round_robin_selection:
  assumes "ready \<noteq> []"
  shows "sorted_wrt (before objs) (sort_ready objs ready)
    \<and> mset (sort_ready objs ready) = mset ready
    \<and> select_next_process objs sch ready = Inr (Some
        (case current_process sch of
           None \<Rightarrow> hd (sort_ready objs ready)
         | Some c \<Rightarrow>
             if c \<in> set ready \<and> length (band objs c (sort_ready objs ready)) > 1
             then cyclic_next (band objs c (sort_ready objs ready)) c
             else hd (sort_ready objs ready)))
    \<and> (\<forall>c. current_process sch = Some c \<and> c \<in> set ready
            \<and> length (band objs c (sort_ready objs ready)) > 1 \<longrightarrow>
          cyclic_next (band objs c (sort_ready objs ready)) c \<in> set ready
        \<and> priority (objs ! cyclic_next (band objs c (sort_ready objs ready)) c)
            = priority (objs ! c))"
proof (intro conjI allI impI)
  show "sorted_wrt (before objs) (sort_ready objs ready)" by (rule sort_ready_sorted)
  show "mset (sort_ready objs ready) = mset ready" by (simp add: sort_ready_def)
  show "select_next_process objs sch ready = Inr (Some
        (case current_process sch of
           None \<Rightarrow> hd (sort_ready objs ready)
         | Some c \<Rightarrow>
             if c \<in> set ready \<and> length (band objs c (sort_ready objs ready)) > 1
             then cyclic_next (band objs c (sort_ready objs ready)) c
             else hd (sort_ready objs ready)))"
    using assms by (rule select_next_process_spec)
next
  fix c
  assume "current_process sch = Some c \<and> c \<in> set ready
            \<and> length (band objs c (sort_ready objs ready)) > 1"
  then have l: "length (band objs c (sort_ready objs ready)) > 1" by simp
  from cyclic_next_in_band [OF l]
  show "cyclic_next (band objs c (sort_ready objs ready)) c \<in> set ready"
    and "priority (objs ! cyclic_next (band objs c (sort_ready objs ready)) c)
            = priority (objs ! c)"
    by simp_all
qed

lemma sched_objs_priority:
  "priority (sched_objs ! 0) = 1" "priority (sched_objs ! 1) = 2"
  "priority (sched_objs ! 2) = 1" "priority (sched_objs ! 3) = 1"
  by (simp_all add: sched_objs_def Process_init_def)

lemma sched_objs_created:
  "created_at (sched_objs ! 0) = 5" "created_at (sched_objs ! 1) = 10"
  "created_at (sched_objs ! 2) = 11" "created_at (sched_objs ! 3) = 12"
  by (simp_all add: sched_objs_def Process_init_def)

lemma sort_ready_example: "sort_ready sched_objs [3, 2, 1] = [1, 2, 3]"
  by (simp add: sort_ready_def sched_objs_priority sched_objs_created less_eq_prod_def
      del: One_nat_def)

lemma band_example:
  "band sched_objs 0 [1, 2, 3] = [2, 3]" "band sched_objs 2 [1, 2, 3] = [2, 3]"
  "band sched_objs 3 [1, 2, 3] = [2, 3]" "band sched_objs 1 [1, 2, 3] = [1]"
  by (simp_all add: band_def sched_objs_priority del: One_nat_def)


lemma select_examples:
  "select_next_process sched_objs (sched_with (Some 0)) [3, 2, 1] = Inr (Some 1)"
  "select_next_process sched_objs (sched_with (Some 2)) [3, 2, 1] = Inr (Some 3)"
  "select_next_process sched_objs (sched_with (Some 3)) [3, 2, 1] = Inr (Some 2)"
  "select_next_process sched_objs (sched_with (Some 1)) [3, 2, 1] = Inr (Some 1)"
  "select_next_process sched_objs (sched_with None) [3, 2, 1] = Inr (Some 1)"
  by (simp_all add: select_next_process_band sort_ready_example band_example sched_with_def
      del: One_nat_def) (simp add: numeral_2_eq_2)

theorem round_robin_current_not_ready_counterexample:
  "current_process (sched_with (Some 0)) = Some 0
   \<and> length (band sched_objs 0 (sort_ready sched_objs [3, 2, 1])) > 1
   \<and> select_next_process sched_objs (sched_with (Some 0)) [3, 2, 1] = Inr (Some 1)
   \<and> 1 \<notin> set (band sched_objs 0 (sort_ready sched_objs [3, 2, 1]))
   \<and> priority (sched_objs ! 1) \<noteq> priority (sched_objs ! 0)"
proof -
  have "current_process (sched_with (Some 0)) = Some 0" by (simp add: sched_with_def)
  then show ?thesis
    by (simp add: select_examples sort_ready_example band_example sched_objs_priority
        del: One_nat_def)
qed

theorem round_robin_selection_witness:
  "[3, 2, 1] \<noteq> ([] :: addr list)
   \<and> sort_ready sched_objs [3, 2, 1] = [1, 2, 3]
   \<and> select_next_process sched_objs (sched_with (Some 2)) [3, 2, 1] = Inr (Some 3)
   \<and> select_next_process sched_objs (sched_with (Some 3)) [3, 2, 1] = Inr (Some 2)
   \<and> select_next_process sched_objs (sched_with (Some 1)) [3, 2, 1] = Inr (Some 1)
   \<and> select_next_process sched_objs (sched_with None) [3, 2, 1] = Inr (Some 1)"
proof -
  have ne: "[3, 2, 1] \<noteq> ([] :: addr list)" by simp
  show ?thesis
    using round_robin_selection [OF ne, of sched_objs "sched_with (Some 2)"]
    by (simp add: select_examples sort_ready_example del: One_nat_def)
qed

section \<open>Memory pool: the ledger against the used counter\<close>

text \<open>
  The used counter minus the ledger: an allocation widens the gap by what the process
  had recorded before (the record is overwritten, not added to), and a deallocation
  leaves the gap as it is.
\<close>

lemma allocate_memory_gap:
  assumes "a < length (objects s)" "memory_used s + n \<le> memory_pool s"
  shows "memory_used (fst (allocate_memory s a n)) - ledger (fst (allocate_memory s a n))
           = memory_used s - ledger s + memory_allocated (objects s ! a)"
  using assms by (simp add: allocate_memory_def ledger_def sum_list_map_update)

lemma deallocate_memory_gap:
  assumes "a < length (objects s)"
  shows "memory_used (fst (deallocate_memory s a)) - ledger (fst (deallocate_memory s a))
           = memory_used s - ledger s"
  using assms by (simp add: deallocate_memory_def ledger_def sum_list_map_update)

text \<open>
  Claim C7 says that the used counter equals the sum of the recorded allocations after
  every sequence of memory operations, and that \<^verbatim>\<open>deallocate_memory\<close> returns all that
  was allocated to the process. The code at two allocations to one process: after
  \<^verbatim>\<open>allocate_memory(p, 100)\<close> and \<^verbatim>\<open>allocate_memory(p, 50)\<close> the counter is 150 and the
  process records 50; \<^verbatim>\<open>deallocate_memory(p)\<close> then leaves the counter at 100 with
  nothing recorded anywhere. Likewise a process that was created (1024 bytes) and then
  given a second allocation leaves 1024 bytes used after \<^verbatim>\<open>terminate_process\<close>, with the
  process table empty.
\<close>

theorem ledger_leak_on_second_allocation:
  "memory_used (mem_run (pool_start [Process_init ''p1'' ''init'' 1 0] :: unit Microkernel)
      [Allocate 0 100, Allocate 0 50]) = 150
   \<and> ledger (mem_run (pool_start [Process_init ''p1'' ''init'' 1 0] :: unit Microkernel)
      [Allocate 0 100, Allocate 0 50]) = 50
   \<and> memory_used (mem_run (pool_start [Process_init ''p1'' ''init'' 1 0] :: unit Microkernel)
      [Allocate 0 100, Allocate 0 50, Deallocate 0]) = 100
   \<and> ledger (mem_run (pool_start [Process_init ''p1'' ''init'' 1 0] :: unit Microkernel)
      [Allocate 0 100, Allocate 0 50, Deallocate 0]) = 0
   \<and> memory_used (fst (terminate_process full_kernel ''a1b2c3d4'')) = 1024
   \<and> list_processes (fst (terminate_process full_kernel ''a1b2c3d4'')) = []"
  by (simp add: pool_start_def Microkernel_init_def Process_init_def allocate_memory_def
      deallocate_memory_def ledger_def full_kernel_eq terminate_process_def list_processes_def)

end
